theory Spec2Isabelle
  imports Complex_Main
begin

section \<open>Common data: vectors, matrices, Python exceptions\<close>

text \<open>
  Coordinates are modelled as real numbers. The program computes with IEEE floating
  point (numpy float64, and single precision inside the host application); rounding is
  not modelled. Where the source can produce a non-finite value by a division by zero,
  the model says so explicitly (see \<open>scale\<close>).
\<close>

type_synonym vec3 = "real \<times> real \<times> real"

text \<open>The exceptions the two modules raise, directly or through Python built-ins.\<close>

datatype error =
  ValueError | KeyError | IndexError | AssertionError | TypeError
  | JSONDecodeError | FileNotFoundError

text \<open>\<open>v[j]\<close> for \<open>j\<close> in \<open>range(3)\<close>.\<close>

fun vget :: "vec3 \<Rightarrow> nat \<Rightarrow> real" where
  "vget (x, y, z) j = (if j = 0 then x else if j = 1 then y else z)"

fun vadd :: "vec3 \<Rightarrow> vec3 \<Rightarrow> vec3" where
  "vadd (a, b, c) (x, y, z) = (a + x, b + y, c + z)"

fun vsub :: "vec3 \<Rightarrow> vec3 \<Rightarrow> vec3" where
  "vsub (a, b, c) (x, y, z) = (a - x, b - y, c - z)"

fun smul :: "real \<Rightarrow> vec3 \<Rightarrow> vec3" where
  "smul k (x, y, z) = (k * x, k * y, k * z)"

text \<open>The Euclidean norm: \<open>np.linalg.norm\<close> of a row, \<open>Vector.length\<close>.\<close>

fun norm2 :: "vec3 \<Rightarrow> real" where
  "norm2 (x, y, z) = x * x + y * y + z * z"

definition vlength :: "vec3 \<Rightarrow> real" where
  "vlength v = sqrt (norm2 v)"

text \<open>
  An object's world matrix is a 4x4 matrix whose product with a 3D vector extends the
  vector by a fourth coordinate 1 and returns the first three coordinates of the
  result; only the first three rows take part.
\<close>

type_synonym row4 = "real \<times> real \<times> real \<times> real"
type_synonym matrix = "row4 \<times> row4 \<times> row4"

fun row_apply :: "row4 \<Rightarrow> vec3 \<Rightarrow> real" where
  "row_apply (a, b, c, d) (x, y, z) = a * x + b * y + c * z + d"

fun mat_mul_vec :: "matrix \<Rightarrow> vec3 \<Rightarrow> vec3" where
  "mat_mul_vec (r0, r1, r2) v = (row_apply r0 v, row_apply r1 v, row_apply r2 v)"

definition identity_matrix :: matrix where
  "identity_matrix = ((1, 0, 0, 0), (0, 1, 0, 0), (0, 0, 1, 0))"

text \<open>Sequencing of computations that may raise.\<close>

fun bind_err :: "error + 'a \<Rightarrow> ('a \<Rightarrow> error + 'b) \<Rightarrow> error + 'b" where
  "bind_err (Inl e) f = Inl e"
| "bind_err (Inr x) f = f x"

fun traverse :: "('a \<Rightarrow> error + 'b) \<Rightarrow> 'a list \<Rightarrow> error + 'b list" where
  "traverse f [] = Inr []"
| "traverse f (x # xs) =
     bind_err (f x) (\<lambda>y. bind_err (traverse f xs) (\<lambda>ys. Inr (y # ys)))"

text \<open>Python's \<open>min\<close> and \<open>max\<close> of a list: \<open>ValueError\<close> on the empty list.\<close>

definition py_min :: "real list \<Rightarrow> error + real" where
  "py_min xs = (case xs of [] \<Rightarrow> Inl ValueError | x # ys \<Rightarrow> Inr (fold min ys x))"

definition py_max :: "real list \<Rightarrow> error + real" where
  "py_max xs = (case xs of [] \<Rightarrow> Inl ValueError | x # ys \<Rightarrow> Inr (fold max ys x))"

section \<open>render.py: BoundingSphere\<close>

text \<open>
  A scene object as the two modules read it: its world matrix, the eight corners of its
  local bounding box, indexed 0 to 7 (the host keeps exactly eight), and the vertices of
  its mesh, each with a position and a selection flag.
\<close>

record vert =
  co :: vec3
  select :: bool

record obj =
  matrix_world :: matrix
  bound_box :: "nat \<Rightarrow> vec3"
  vertices :: "vert list"

record sphere =
  centre :: vec3
  radius :: real

text \<open>
  \<open>minmax(index, axis)\<close>: the control bit of \<open>index\<close> for \<open>axis\<close>, for axis 0 combined by
  exclusive or with bit 1 of the index, selects \<open>max\<close> or \<open>min\<close>.
\<close>

definition is_max :: "nat \<Rightarrow> nat \<Rightarrow> bool" where
  "is_max index axis =
     (let m = ((index div 2 ^ axis) mod 2 = 1)
      in if axis = 0 then m \<noteq> ((index div 2) mod 2 = 1) else m)"

definition minmax :: "nat \<Rightarrow> nat \<Rightarrow> real list \<Rightarrow> error + real" where
  "minmax index axis = (if is_max index axis then py_max else py_min)"

text \<open>Corner \<open>i\<close> of object \<open>x\<close> in world space.\<close>

definition world_corner :: "obj \<Rightarrow> nat \<Rightarrow> vec3" where
  "world_corner x i = mat_mul_vec (matrix_world x) (bound_box x i)"

text \<open>
  \<open>box\<close>: for every corner \<open>i\<close> in \<open>range(8)\<close> and axis \<open>j\<close> in \<open>range(3)\<close>, the minimum or
  maximum over all objects of coordinate \<open>j\<close> of their corner \<open>i\<close>.
\<close>

definition box_entry :: "obj list \<Rightarrow> nat \<Rightarrow> nat \<Rightarrow> error + real" where
  "box_entry objects i j = minmax i j (map (\<lambda>x. vget (world_corner x i) j) objects)"

definition box_row :: "obj list \<Rightarrow> nat \<Rightarrow> error + vec3" where
  "box_row objects i =
     bind_err (box_entry objects i 0) (\<lambda>x.
     bind_err (box_entry objects i 1) (\<lambda>y.
     bind_err (box_entry objects i 2) (\<lambda>z. Inr (x, y, z))))"

definition box :: "obj list \<Rightarrow> error + vec3 list" where
  "box objects = traverse (box_row objects) [0..<8]"

text \<open>\<open>np.sum(box, axis=0)/8\<close>.\<close>

definition box_mean :: "vec3 list \<Rightarrow> vec3" where
  "box_mean b = smul (1 / 8) (fold vadd b (0, 0, 0))"

text \<open>\<open>np.max(np.linalg.norm(box - centre, axis=1))\<close>, on the eight rows of the box.\<close>

definition max_norm :: "vec3 list \<Rightarrow> vec3 \<Rightarrow> real" where
  "max_norm b c =
     (case map (\<lambda>p. vlength (vsub p c)) b of [] \<Rightarrow> 0 | d # ds \<Rightarrow> fold max ds d)"

text \<open>\<open>BoundingSphere.__init__(objects, centre=None)\<close>.\<close>

definition BoundingSphere :: "obj list \<Rightarrow> vec3 option \<Rightarrow> error + sphere" where
  "BoundingSphere objects centre_arg =
     bind_err (box objects) (\<lambda>b.
       let c = (case centre_arg of None \<Rightarrow> box_mean b | Some c' \<Rightarrow> c')
       in Inr \<lparr>centre = c, radius = max_norm b c\<rparr>)"

section \<open>render.py: the landscape tree\<close>

text \<open>
  The tree is the host library's \<open>mathutils.kdtree.KDTree\<close>; the repository only calls
  it. A tree is modelled by the points inserted into it, each with the index it was
  inserted under, in insertion order.
\<close>

type_synonym kdtree = "(vec3 \<times> nat) list"

text \<open>
  \<open>landscape_tree(landscape)\<close>: a tree of size \<open>len(vertices)\<close>, into which every vertex
  is inserted at its world position under its index in the enumeration. The function has
  no failing branch: the tree is created with room for exactly the vertices inserted.
  The result is a sum all the same, so that this can be stated.
\<close>

definition landscape_tree :: "obj \<Rightarrow> error + kdtree" where
  "landscape_tree landscape =
     Inr (map (\<lambda>(i, vertex). (mat_mul_vec (matrix_world landscape) (co vertex), i))
            (enumerate 0 (vertices landscape)))"

text \<open>
  Modelled from the spec: \<open>KDTree.find\<close> is the library's, not under src/. The spec's
  \<open>nearest\<close> returns the closest indexed point. The library's documentation gives the
  shape of the result: the triple (position, index, distance) of the nearest point, and
  (None, None, None) on a tree without points, here \<open>None\<close>. Among several nearest
  points the library does not say which it returns; the model keeps the first inserted.
\<close>

definition nearer :: "vec3 \<Rightarrow> vec3 \<times> nat \<Rightarrow> vec3 \<times> nat \<Rightarrow> vec3 \<times> nat" where
  "nearer q b a = (if norm2 (vsub (fst b) q) < norm2 (vsub (fst a) q) then b else a)"

definition kdtree_find :: "kdtree \<Rightarrow> vec3 \<Rightarrow> (vec3 \<times> nat \<times> real) option" where
  "kdtree_find tree q =
     (case tree of
        [] \<Rightarrow> None
      | p # ps \<Rightarrow>
          (case fold (nearer q) ps p of (c, i) \<Rightarrow> Some (c, i, vlength (vsub c q))))"

section \<open>render.py: random\_camera\<close>

text \<open>
  The configuration fields \<open>random_camera\<close> reads. \<open>camera_noise\<close> is a float or a list
  of three floats.
\<close>

datatype noise = Scalar real | PerAxis vec3

record opts =
  camera_distance_factor :: "real \<times> real"
  camera_lens :: "real \<times> real"
  camera_theta :: "real \<times> real"
  camera_noise :: noise

record pose =
  focal_length :: real
  location :: vec3
  rotation :: vec3

text \<open>
  The random source. \<open>np.random\<close> is a process-wide generator; it is modelled by the
  sequence of deviates it yields, one per scalar drawn, in the order of the calls: a
  standard normal deviate for \<open>normal\<close> and \<open>randn\<close>, a deviate of the half-open unit
  interval for \<open>uniform\<close>. \<open>normal(loc, scale)\<close> raises \<open>ValueError\<close> on a negative scale
  and is \<open>loc + scale * g\<close> otherwise; \<open>uniform(low, high)\<close> is \<open>low + (high - low) * u\<close>.
\<close>

type_synonym rng = "nat \<Rightarrow> real"

definition normal :: "real \<Rightarrow> real \<Rightarrow> real \<Rightarrow> error + real" where
  "normal loc scl g = (if scl < 0 then Inl ValueError else Inr (loc + scl * g))"

definition uniform :: "real \<Rightarrow> real \<Rightarrow> real \<Rightarrow> real" where
  "uniform low high u = low + (high - low) * u"

text \<open>
  One pass through the body of the \<open>while True\<close> loop, for the minimal distance \<open>d\<close>
  computed before the loop, drawing at positions \<open>n\<close>, \<open>n + 1\<close>
  and \<open>n + 2\<close> of the random source. The result is an error raised in the pass, or
  \<open>None\<close> when the candidate is rejected, or the accepted location with its angles.
  The test of the source is \<open>location[2] > closest_vertex[2]\<close>, where \<open>closest_vertex\<close>
  is what \<open>find\<close> returned: component 2 of that triple is the distance. On a tree without
  points the component is \<open>None\<close> and the comparison raises \<open>TypeError\<close>.
\<close>

definition candidate :: "vec3 \<Rightarrow> real \<Rightarrow> real \<Rightarrow> real \<Rightarrow> vec3" where
  "candidate c distance theta phi =
     vadd c (smul distance (sin theta * sin (- phi), sin theta * cos phi, cos theta))"

definition attempt ::
  "opts \<Rightarrow> sphere \<Rightarrow> kdtree \<Rightarrow> real \<Rightarrow> rng \<Rightarrow> nat \<Rightarrow> error + (vec3 \<times> real \<times> real) option" where
  "attempt conf sph tree d src n =
     (case normal (d * fst (camera_distance_factor conf))
             (d * snd (camera_distance_factor conf)) (src n) of
        Inl e \<Rightarrow> Inl e
      | Inr distance \<Rightarrow>
          (let theta = uniform (fst (camera_theta conf)) (snd (camera_theta conf)) (src (n + 1));
               phi = uniform 0 (2 * pi) (src (n + 2));
               loc = candidate (centre sph) distance theta phi
           in case kdtree_find tree loc of
                None \<Rightarrow> Inl TypeError
              | Some closest_vertex \<Rightarrow>
                  if vget loc 2 > snd (snd closest_vertex) then Inr (Some (loc, theta, phi))
                  else Inr None))"

text \<open>
  The loop. It has no bound in the source, so it is a partial function: \<open>None\<close> is the
  loop that never exits. The last component of the result is the position of the random
  source after the loop.
\<close>

partial_function (option) camera_loop ::
  "opts \<Rightarrow> sphere \<Rightarrow> kdtree \<Rightarrow> real \<Rightarrow> rng \<Rightarrow> nat \<Rightarrow> (error + (vec3 \<times> real \<times> real) \<times> nat) option" where
  "camera_loop conf sph tree d src n =
     (case attempt conf sph tree d src n of
        Inl e \<Rightarrow> Some (Inl e)
      | Inr (Some r) \<Rightarrow> Some (Inr (r, n + 3))
      | Inr None \<Rightarrow> camera_loop conf sph tree d src (n + 3))"

text \<open>\<open>np.random.randn(3) * camera_noise\<close>.\<close>

fun noise_mul :: "vec3 \<Rightarrow> noise \<Rightarrow> vec3" where
  "noise_mul (a, b, c) (Scalar k) = (a * k, b * k, c * k)"
| "noise_mul (a, b, c) (PerAxis (x, y, z)) = (a * x, b * y, c * z)"

text \<open>
  \<open>min_distance = self.sphere.radius / np.tan(self.camera.data.angle_y/2)\<close>. The angle is
  the host's: the camera's vertical field of view once its focal length is set. The host
  keeps it strictly between 0 and \<open>pi\<close>, where the tangent of its half is positive. Were
  the tangent 0, the source would divide by zero and go on with a non-finite distance;
  the model does not cover that, and the general statement about \<open>random_camera\<close> below
  assumes that the tangent is not 0.
\<close>

definition min_distance :: "sphere \<Rightarrow> real \<Rightarrow> real" where
  "min_distance sph angle = radius sph / tan (angle / 2)"

text \<open>
  \<open>random_camera(self)\<close>. \<open>angle_y\<close> gives the host's angle for a focal length.
\<close>

definition random_camera ::
  "opts \<Rightarrow> sphere \<Rightarrow> kdtree \<Rightarrow> (real \<Rightarrow> real) \<Rightarrow> rng \<Rightarrow> (error + pose) option" where
  "random_camera conf sph tree angle_y src =
     (case normal 0 (snd (camera_lens conf)) (src 0) of
        Inl e \<Rightarrow> Some (Inl e)
      | Inr g \<Rightarrow>
          (let fl = fst (camera_lens conf) * exp g;
               d = min_distance sph (angle_y fl)
           in case camera_loop conf sph tree d src 1 of
                None \<Rightarrow> None
              | Some (Inl e) \<Rightarrow> Some (Inl e)
              | Some (Inr ((loc, theta, phi), n)) \<Rightarrow>
                  Some (Inr \<lparr>focal_length = fl, location = loc,
                     rotation = vadd (theta, 0, pi + phi)
                       (noise_mul (src n, src (n + 1), src (n + 2)) (camera_noise conf))\<rparr>)))"

section \<open>render/modify.py: the group document\<close>

text \<open>
  A group set is a dictionary from group names (\<open>scale\<close>, \<open>min\<close>, \<open>max\<close>) to lists of
  object names. \<open>Scale.groups\<close> is such a dictionary or \<open>None\<close>. The group document is a
  JSON file holding a dictionary from names to group sets. A file is modelled by its
  content: a document, or the empty file, which is what opening a file for writing
  leaves before anything is written, and which is not JSON.
\<close>

type_synonym groups = "string \<rightharpoonup> string list"

datatype content = Empty | Document "string \<rightharpoonup> groups option"

type_synonym files = "string \<rightharpoonup> content"

definition json_load :: "content \<Rightarrow> error + (string \<rightharpoonup> groups option)" where
  "json_load c = (case c of Empty \<Rightarrow> Inl JSONDecodeError | Document d \<Rightarrow> Inr d)"

text \<open>
  \<open>Scale.write_groups(filename, name, overwrite=True)\<close>. The file is first read, then
  opened for writing, which truncates it; the test on \<open>name\<close> and \<open>overwrite\<close> comes
  after that, inside the second \<open>with\<close>. The result is the file system afterwards and
  the outcome of the call.
\<close>

definition write_groups ::
  "groups option \<Rightarrow> string \<Rightarrow> string \<Rightarrow> bool \<Rightarrow> files \<Rightarrow> files \<times> (error + unit)" where
  "write_groups self_groups filename name overwrite fs =
     (case fs filename of
        None \<Rightarrow> (fs, Inl FileNotFoundError)
      | Some c \<Rightarrow>
          (case json_load c of
             Inl e \<Rightarrow> (fs, Inl e)
           | Inr data \<Rightarrow>
               (let fs' = fs(filename \<mapsto> Empty)
                in if data name = None \<or> overwrite
                   then (fs'(filename \<mapsto> Document (data(name \<mapsto> self_groups))), Inr ())
                   else (fs', Inl ValueError))))"

text \<open>\<open>Scale.load_groups(filename, name)\<close>: the new value of \<open>Scale.groups\<close>.\<close>

definition load_groups :: "string \<Rightarrow> string \<Rightarrow> files \<Rightarrow> error + groups option" where
  "load_groups filename name fs =
     (case fs filename of
        None \<Rightarrow> Inl FileNotFoundError
      | Some c \<Rightarrow>
          bind_err (json_load c) (\<lambda>data.
            case data name of None \<Rightarrow> Inl KeyError | Some g \<Rightarrow> Inr g))"

section \<open>render/modify.py: scaling\<close>

text \<open>
  The scene lives in the host application. What \<open>scale\<close> does to it is the sequence of
  operator calls it issues: a resize of one object's mesh by a vector of three factors,
  or a translation of a list of objects by a vector. A factor is a float that may be
  non-finite: \<open>None\<close> stands for nan and the infinities, which numpy produces, with a
  warning and no exception, where the source divides by a zero length.
\<close>

type_synonym bbox = "vec3 \<times> vec3"
type_synonym fvec = "real option \<times> real option \<times> real option"
type_synonym axis = "bool \<times> bool \<times> bool"

datatype op = Resize string fvec | Translate "string list" vec3

text \<open>
  Modelled from the spec: \<open>helpers.bounding_box\<close> is code of the repository that is not
  under src/. By the spec it records an object's world bounding box; the source reads
  row 0 and row 1 of it as the lower and the upper corner. The box of an object depends
  on what the host has done so far, so the host is a parameter: from the operations
  issued so far and a name it gives the object's box, or \<open>None\<close> when
  \<open>bpy.data.objects\<close> has no object of that name (a \<open>KeyError\<close> in the source).
\<close>

type_synonym host = "op list \<Rightarrow> string \<Rightarrow> bbox option"

type_synonym 'a action = "op list \<Rightarrow> op list \<times> (error + 'a)"

definition then_do :: "'a action \<Rightarrow> ('a \<Rightarrow> 'b action) \<Rightarrow> 'b action" where
  "then_do m f tr = (case m tr of (tr', Inl e) \<Rightarrow> (tr', Inl e) | (tr', Inr x) \<Rightarrow> f x tr')"

definition raise :: "error \<Rightarrow> 'a action" where
  "raise e tr = (tr, Inl e)"

text \<open>\<open>self.groups[key]\<close>.\<close>

definition lookup :: "groups \<Rightarrow> string \<Rightarrow> string list action" where
  "lookup g key tr = (case g key of None \<Rightarrow> (tr, Inl KeyError) | Some names \<Rightarrow> (tr, Inr names))"

text \<open>
  \<open>translate_group(group, translate)\<close>: every name of the group is looked up and
  selected, then one translation is issued for the selection.
\<close>

definition translate_group :: "host \<Rightarrow> string list \<Rightarrow> vec3 \<Rightarrow> unit action" where
  "translate_group h grp translate tr =
     (if list_all (\<lambda>name. h tr name \<noteq> None) grp
      then (tr @ [Translate grp translate], Inr ())
      else (tr, Inl KeyError))"

text \<open>
  \<open>scale_object(obj, value, axis)\<close> resizes by \<open>axis*(value - 1) + np.ones(3)\<close>. \<open>value\<close>
  is a float for the reference and an array of three floats for the other objects; a
  float stands for three equal components. A non-finite component stays non-finite:
  multiplied by the 0 of a \<open>False\<close> it is nan.
\<close>

definition resize_factor :: "bool \<Rightarrow> real option \<Rightarrow> real option" where
  "resize_factor b v =
     (case v of None \<Rightarrow> None | Some x \<Rightarrow> Some ((if b then 1 else 0) * (x - 1) + 1))"

fun resize_value :: "axis \<Rightarrow> fvec \<Rightarrow> fvec" where
  "resize_value (a0, a1, a2) (v0, v1, v2) =
     (resize_factor a0 v0, resize_factor a1 v1, resize_factor a2 v2)"

definition scale_object :: "string \<Rightarrow> fvec \<Rightarrow> axis \<Rightarrow> unit action" where
  "scale_object name value ax tr = (tr @ [Resize name (resize_value ax value)], Inr ())"

text \<open>\<open>axis = np.zeros(3, dtype=bool); axis[axis_index] = True\<close>.\<close>

definition axis_mask :: "int \<Rightarrow> error + axis" where
  "axis_mask axis_index =
     (if - 3 \<le> axis_index \<and> axis_index < 3
      then (let j = (if axis_index < 0 then axis_index + 3 else axis_index)
            in Inr (j = 0, j = 1, j = 2))
      else Inl IndexError)"

text \<open>Arithmetic on arrays: the quotient of two lengths, and the product with the axis.\<close>

definition fdiv :: "real \<Rightarrow> real \<Rightarrow> real option" where
  "fdiv a b = (if b = 0 then None else Some (a / b))"

fun vdiv :: "vec3 \<Rightarrow> vec3 \<Rightarrow> fvec" where
  "vdiv (a, b, c) (x, y, z) = (fdiv a x, fdiv b y, fdiv c z)"

fun vmask :: "vec3 \<Rightarrow> axis \<Rightarrow> vec3" where
  "vmask (x, y, z) (a0, a1, a2) =
     ((if a0 then x else 0), (if a1 then y else 0), (if a2 then z else 0))"

definition vneg :: "vec3 \<Rightarrow> vec3" where
  "vneg v = vsub (0, 0, 0) v"

text \<open>
  The loop over \<open>self.groups['scale']\<close>: every object but the reference is resized by
  the quotient of the length its box would have, had it moved with the reference, and
  the length it has.
\<close>

fun resize_scale_group ::
  "host \<Rightarrow> string list \<Rightarrow> string \<Rightarrow> bbox \<Rightarrow> bbox \<Rightarrow> axis \<Rightarrow> unit action" where
  "resize_scale_group h [] reference start_ref end_ref ax tr = (tr, Inr ())"
| "resize_scale_group h (name # names) reference start_ref end_ref ax tr =
     (if name = reference then resize_scale_group h names reference start_ref end_ref ax tr
      else
        (case h tr name of
           None \<Rightarrow> (tr, Inl KeyError)
         | Some start_box \<Rightarrow>
             (let start_length = vsub (snd start_box) (fst start_box);
                  end_box = (vadd (vsub (fst start_box) (fst start_ref)) (fst end_ref),
                             vadd (vsub (snd start_box) (snd start_ref)) (snd end_ref));
                  end_length = vsub (snd end_box) (fst end_box)
              in then_do (scale_object name (vdiv end_length start_length) ax)
                   (\<lambda>_. resize_scale_group h names reference start_ref end_ref ax) tr)))"

text \<open>The translations, by the base; \<open>translate\<close> is the pair of rows of the array.\<close>

definition translate_by_base :: "host \<Rightarrow> groups \<Rightarrow> string \<Rightarrow> vec3 \<times> vec3 \<Rightarrow> unit action" where
  "translate_by_base h g base translate =
     (if base = ''min'' then
        then_do (lookup g ''scale'') (\<lambda>names.
        then_do (translate_group h names (vneg (fst translate))) (\<lambda>_.
        then_do (lookup g ''max'') (\<lambda>names'.
        translate_group h names' (vsub (snd translate) (fst translate)))))
      else if base = ''scale'' then
        then_do (lookup g ''min'') (\<lambda>names.
        then_do (translate_group h names (fst translate)) (\<lambda>_.
        then_do (lookup g ''max'') (\<lambda>names'.
        translate_group h names' (snd translate))))
      else if base = ''max'' then
        then_do (lookup g ''min'') (\<lambda>names.
        then_do (translate_group h names (vsub (fst translate) (snd translate))) (\<lambda>_.
        then_do (lookup g ''scale'') (\<lambda>names'.
        translate_group h names' (vneg (snd translate)))))
      else raise ValueError)"

text \<open>\<open>Scale.scale(value, axis_index, reference, base='scale')\<close>.\<close>

definition scale ::
  "host \<Rightarrow> groups option \<Rightarrow> real \<Rightarrow> int \<Rightarrow> string \<Rightarrow> string \<Rightarrow> unit action" where
  "scale h self_groups value axis_index reference base tr =
     (case self_groups of
        None \<Rightarrow> (tr, Inl AssertionError)
      | Some g \<Rightarrow>
          (case axis_mask axis_index of
             Inl e \<Rightarrow> (tr, Inl e)
           | Inr ax \<Rightarrow>
               (case h tr reference of
                  None \<Rightarrow> (tr, Inl KeyError)
                | Some start_ref \<Rightarrow>
                    then_do (scale_object reference (Some value, Some value, Some value) ax)
                      (\<lambda>_ tr1.
                         case h tr1 reference of
                           None \<Rightarrow> (tr1, Inl KeyError)
                         | Some end_ref \<Rightarrow>
                             then_do (lookup g ''scale'') (\<lambda>names.
                             then_do (resize_scale_group h names reference start_ref end_ref ax)
                               (\<lambda>_. translate_by_base h g base
                                  (vmask (vsub (fst end_ref) (fst start_ref)) ax,
                                   vmask (vsub (snd end_ref) (snd start_ref)) ax))) tr1)
                      tr)))"

section \<open>render/modify.py: dissolving vertices\<close>

text \<open>
  The three functions work on the vertices of one mesh. Deselecting clears every
  selection flag. Dissolving is the host's operator \<open>bpy.ops.mesh.dissolve_verts\<close>: the
  source only calls it, and what it leaves of a mesh depends on edges and faces that the
  source never reads. The operator is therefore a parameter: a function from the vertices
  as it finds them, with their selection flags, to the vertices it leaves. Nothing is
  assumed of it.
\<close>

type_synonym dissolver = "vert list \<Rightarrow> vert list"

definition deselect_all :: "vert list \<Rightarrow> vert list" where
  "deselect_all vs = map (\<lambda>v. v\<lparr>select := False\<rparr>) vs"

text \<open>\<open>dissolve_near(point, obj)\<close>.\<close>

definition select_near :: "vec3 \<Rightarrow> vert list \<Rightarrow> vert list" where
  "select_near point vs =
     map (\<lambda>v. if vlength (vsub (co v) point) < 0.5 then v\<lparr>select := True\<rparr> else v) vs"

definition dissolve_near :: "dissolver \<Rightarrow> vec3 \<Rightarrow> vert list \<Rightarrow> vert list" where
  "dissolve_near dissolve_verts point vs = dissolve_verts (select_near point (deselect_all vs))"

text \<open>\<open>dissolve_near_selected_vertex(obj)\<close>.\<close>

definition dissolve_near_selected_vertex :: "dissolver \<Rightarrow> vert list \<Rightarrow> error + vert list" where
  "dissolve_near_selected_vertex dissolve_verts vs =
     (let selected_vertex = filter select vs
      in if length selected_vertex = 1
         then Inr (dissolve_near dissolve_verts (co (hd selected_vertex)) vs)
         else Inl ValueError)"

text \<open>
  \<open>vert.co[axis_index]\<close>: a vector of three components takes the indices from -3 to 2
  and raises \<open>IndexError\<close> on any other.
\<close>

definition vindex :: "vec3 \<Rightarrow> int \<Rightarrow> error + real" where
  "vindex v i =
     (if - 3 \<le> i \<and> i < 3 then Inr (vget v (nat (if i < 0 then i + 3 else i)))
      else Inl IndexError)"

text \<open>
  \<open>dissolve_next()\<close>, the inner function of \<open>limit_dissolve\<close>: the scan of the vertices
  in their order. The second argument is the part of the mesh still to scan.
\<close>

fun dissolve_next ::
  "dissolver \<Rightarrow> vert list \<Rightarrow> vert list \<Rightarrow> int \<Rightarrow> real \<Rightarrow> error + bool \<times> vert list" where
  "dissolve_next dissolve_verts [] mesh axis_index limit = Inr (False, mesh)"
| "dissolve_next dissolve_verts (v # rest) mesh axis_index limit =
     (case vindex (co v) axis_index of
        Inl e \<Rightarrow> Inl e
      | Inr x \<Rightarrow>
          if x < limit then Inr (True, dissolve_near dissolve_verts (co v) mesh)
          else dissolve_next dissolve_verts rest mesh axis_index limit)"

text \<open>
  \<open>while dissolve_next(): pass\<close>. Nothing in the source bounds the number of rounds or
  checks that a round has removed a vertex, so the loop is a partial function: \<open>None\<close> is
  the loop that never exits.
\<close>

partial_function (option) limit_dissolve ::
  "dissolver \<Rightarrow> vert list \<Rightarrow> int \<Rightarrow> real \<Rightarrow> (error + vert list) option" where
  "limit_dissolve dissolve_verts mesh axis_index limit =
     (case dissolve_next dissolve_verts mesh mesh axis_index limit of
        Inl e \<Rightarrow> Some (Inl e)
      | Inr (again, mesh') \<Rightarrow>
          if again then limit_dissolve dissolve_verts mesh' axis_index limit
          else Some (Inr mesh'))"

section \<open>The spec's statements as definitions\<close>

text \<open>
  The entry of the composite box for corner \<open>i\<close> and axis \<open>j\<close>, as a maximum or a
  minimum over the set of objects.
\<close>

definition extremum :: "obj list \<Rightarrow> nat \<Rightarrow> nat \<Rightarrow> real" where
  "extremum objects i j =
     (if is_max i j then Max ((\<lambda>x. vget (world_corner x i) j) ` set objects)
      else Min ((\<lambda>x. vget (world_corner x i) j) ` set objects))"

text \<open>
  The translations of the spec, by its words: for base \<open>scale\<close> the \<open>min\<close> group moves by
  \<open>translate[0]\<close> and the \<open>max\<close> group by \<open>translate[1]\<close>; for base \<open>min\<close> the \<open>scale\<close> group
  moves by \<open>-translate[0]\<close> and the \<open>max\<close> group by \<open>translate[1] - translate[0]\<close>; for
  base \<open>max\<close> the \<open>min\<close> group moves by \<open>translate[0] - translate[1]\<close> and the \<open>scale\<close>
  group by \<open>-translate[1]\<close>. Nothing is said for another base or a missing group.
\<close>

definition spec_translations :: "groups \<Rightarrow> string \<Rightarrow> vec3 \<Rightarrow> vec3 \<Rightarrow> op list option" where
  "spec_translations g base t0 t1 =
     (if base = ''scale'' then
        (case (g ''min'', g ''max'') of
           (Some gmin, Some gmax) \<Rightarrow> Some [Translate gmin t0, Translate gmax t1]
         | _ \<Rightarrow> None)
      else if base = ''min'' then
        (case (g ''scale'', g ''max'') of
           (Some gscale, Some gmax) \<Rightarrow>
             Some [Translate gscale (vneg t0), Translate gmax (vsub t1 t0)]
         | _ \<Rightarrow> None)
      else if base = ''max'' then
        (case (g ''min'', g ''scale'') of
           (Some gmin, Some gscale) \<Rightarrow>
             Some [Translate gmin (vsub t0 t1), Translate gscale (vneg t1)]
         | _ \<Rightarrow> None)
      else None)"

text \<open>The operations that resize.\<close>

definition is_resize :: "op \<Rightarrow> bool" where
  "is_resize x = (case x of Resize _ _ \<Rightarrow> True | Translate _ _ \<Rightarrow> False)"

text \<open>
  What a call with factor 1 should issue: resizes by 1 on every axis and translations by
  the zero vector. A box is flat when it has no extent along some axis.
\<close>

definition unit_resize :: "op \<Rightarrow> bool" where
  "unit_resize x = (case x of Resize _ f \<Rightarrow> f = (Some 1, Some 1, Some 1) | Translate _ _ \<Rightarrow> False)"

definition zero_translation :: "op \<Rightarrow> bool" where
  "zero_translation x = (case x of Resize _ _ \<Rightarrow> False | Translate _ t \<Rightarrow> t = (0, 0, 0))"

definition non_flat :: "bbox \<Rightarrow> bool" where
  "non_flat b = (case vsub (snd b) (fst b) of (x, y, z) \<Rightarrow> x \<noteq> 0 \<and> y \<noteq> 0 \<and> z \<noteq> 0)"

text \<open>
  One round of \<open>limit_dissolve\<close> as a function on meshes: the mesh \<open>dissolve_next\<close>
  leaves, which is the mesh itself when the scan finds no vertex below the limit.
\<close>

definition dissolve_round :: "dissolver \<Rightarrow> int \<Rightarrow> real \<Rightarrow> vert list \<Rightarrow> vert list" where
  "dissolve_round d axis_index limit mesh =
     (case dissolve_next d mesh mesh axis_index limit of
        Inl e \<Rightarrow> mesh
      | Inr (again, mesh') \<Rightarrow> mesh')"


section \<open>Example data\<close>

text \<open>
  The host lays out the eight corners of a local bounding box from its lower corner
  \<open>lo\<close> and its upper corner \<open>hi\<close> in this order.
\<close>

definition aabb_corners :: "vec3 \<Rightarrow> vec3 \<Rightarrow> nat \<Rightarrow> vec3" where
  "aabb_corners lo hi i =
     (case (lo, hi) of ((x0, y0, z0), (x1, y1, z1)) \<Rightarrow>
        [(x0, y0, z0), (x0, y0, z1), (x0, y1, z1), (x0, y1, z0),
         (x1, y0, z0), (x1, y0, z1), (x1, y1, z1), (x1, y1, z0)] ! i)"

text \<open>Two boxes with the identity as world matrix; the second contains the first.\<close>

definition cube_small :: obj where
  "cube_small =
     \<lparr>matrix_world = identity_matrix, bound_box = aabb_corners (0, 0, 0) (4, 4, 4),
      vertices = []\<rparr>"

definition slab_large :: obj where
  "slab_large =
     \<lparr>matrix_world = identity_matrix, bound_box = aabb_corners (-4, 0, 0) (4, 4, 8),
      vertices = []\<rparr>"


text \<open>A mesh with one selected vertex, one vertex within 0.5 of it and one farther away.\<close>

definition one_selected :: "vert list" where
  "one_selected =
     [\<lparr>co = (0, 0, 0), select = True\<rparr>, \<lparr>co = (0, 0, 1 / 4), select = False\<rparr>,
      \<lparr>co = (0, 0, 1), select = False\<rparr>]"

text \<open>
  Two example hosts for dissolving. The first removes every selected vertex. The second
  does so on a mesh of more than two vertices and leaves a mesh of at most two vertices,
  the two ends of a single edge, as it is.
\<close>

definition remove_selected :: dissolver where
  "remove_selected vs = filter (\<lambda>v. \<not> select v) vs"



text \<open>Landscapes without vertices and with a single vertex.\<close>

definition empty_landscape :: obj where
  "empty_landscape =
     \<lparr>matrix_world = identity_matrix, bound_box = aabb_corners (0, 0, 0) (0, 0, 0), vertices = []\<rparr>"

definition peak :: obj where
  "peak =
     \<lparr>matrix_world = identity_matrix, bound_box = aabb_corners (0, 0, 4) (0, 0, 4),
      vertices = [\<lparr>co = (0, 0, 4), select = False\<rparr>]\<rparr>"

definition ground_point :: obj where
  "ground_point =
     \<lparr>matrix_world = identity_matrix, bound_box = aabb_corners (0, 0, 0) (0, 0, 0),
      vertices = [\<lparr>co = (0, 0, 0), select = False\<rparr>]\<rparr>"

text \<open>
  Two configurations without variance. The first puts the camera three units above
  the centre; the second has its polar angle fixed at \<open>pi\<close>, below the horizon.
\<close>

definition conf_above :: opts where
  "conf_above =
     \<lparr>camera_distance_factor = (3, 0), camera_lens = (16, 0), camera_theta = (0, 0),
      camera_noise = Scalar 0\<rparr>"

definition conf_below :: opts where
  "conf_below =
     \<lparr>camera_distance_factor = (1, 0), camera_lens = (16, 0), camera_theta = (pi, pi),
      camera_noise = Scalar 0\<rparr>"

definition unit_sphere :: sphere where
  "unit_sphere = \<lparr>centre = (0, 0, 0), radius = 1\<rparr>"

text \<open>A host camera whose vertical field of view is a right angle at every focal length.\<close>

definition right_angle :: "real \<Rightarrow> real" where
  "right_angle fl = pi / 2"

text \<open>A random source that yields the deviate 0 at every draw.\<close>

definition zero_source :: rng where
  "zero_source n = 0"

text \<open>A group document with one group set.\<close>

definition bridge_groups :: groups where
  "bridge_groups = [''scale'' \<mapsto> [''deck''], ''min'' \<mapsto> [''pier_a''], ''max'' \<mapsto> [''pier_b'']]"

definition groups_file :: files where
  "groups_file = [''groups.json'' \<mapsto> Document [''bridge'' \<mapsto> Some bridge_groups]]"

text \<open>
  An example host for \<open>scale\<close>: it keeps a box for every object, resizes a box about its
  centre, and shifts the boxes of the objects translated. A non-finite factor would
  leave no box of real numbers; the example keeps the box as it was, and nothing below
  depends on that.
\<close>

fun scale_interval :: "real option \<Rightarrow> real \<Rightarrow> real \<Rightarrow> real \<times> real" where
  "scale_interval None lo hi = (lo, hi)"
| "scale_interval (Some k) lo hi =
     (let c = (lo + hi) / 2; a = c + k * (lo - c); b = c + k * (hi - c) in (min a b, max a b))"

fun resize_box :: "fvec \<Rightarrow> bbox \<Rightarrow> bbox" where
  "resize_box (f0, f1, f2) ((x0, y0, z0), (x1, y1, z1)) =
     (case (scale_interval f0 x0 x1, scale_interval f1 y0 y1, scale_interval f2 z0 z1) of
        ((a0, a1), (b0, b1), (c0, c1)) \<Rightarrow> ((a0, b0, c0), (a1, b1, c1)))"

fun apply_op :: "op \<Rightarrow> (string \<rightharpoonup> bbox) \<Rightarrow> (string \<rightharpoonup> bbox)" where
  "apply_op (Resize name f) boxes =
     (case boxes name of None \<Rightarrow> boxes | Some b \<Rightarrow> boxes(name \<mapsto> resize_box f b))"
| "apply_op (Translate names t) boxes =
     (\<lambda>n. if n \<in> set names then map_option (\<lambda>(lo, hi). (vadd lo t, vadd hi t)) (boxes n)
          else boxes n)"

definition box_host :: "(string \<rightharpoonup> bbox) \<Rightarrow> host" where
  "box_host init tr name = fold apply_op tr init name"

text \<open>
  Three scenes: a deck between two piers; the same with a deck of no height; and the
  first with a plate of no height in the \<open>scale\<close> group.
\<close>

definition bridge_scene :: "string \<rightharpoonup> bbox" where
  "bridge_scene =
     [''deck'' \<mapsto> ((0, 0, 4), (10, 2, 5)), ''pier_a'' \<mapsto> ((0, 0, 0), (1, 2, 4)),
      ''pier_b'' \<mapsto> ((9, 0, 0), (10, 2, 4))]"

definition flat_scene :: "string \<rightharpoonup> bbox" where
  "flat_scene =
     [''deck'' \<mapsto> ((0, 0, 4), (10, 2, 4)), ''pier_a'' \<mapsto> ((0, 0, 0), (1, 2, 4)),
      ''pier_b'' \<mapsto> ((9, 0, 0), (10, 2, 4))]"

definition plate_groups :: groups where
  "plate_groups =
     [''scale'' \<mapsto> [''deck'', ''plate''], ''min'' \<mapsto> [''pier_a''], ''max'' \<mapsto> [''pier_b'']]"

definition plate_scene :: "string \<rightharpoonup> bbox" where
  "plate_scene =
     [''deck'' \<mapsto> ((0, 0, 4), (10, 2, 5)), ''plate'' \<mapsto> ((2, 0, 5), (8, 2, 5)),
      ''pier_a'' \<mapsto> ((0, 0, 0), (1, 2, 4)), ''pier_b'' \<mapsto> ((9, 0, 0), (10, 2, 4))]"

section \<open>BoundingSphere: the composite box and the sphere\<close>

lemma fold_max_Max: "fold max ds (d::real) = Max (set (d # ds))"
  by (simp only: Max.set_eq_fold)

lemma fold_min_Min: "fold min ds (d::real) = Min (set (d # ds))"
  by (simp only: Min.set_eq_fold)

lemma py_max_nonempty: "xs \<noteq> [] \<Longrightarrow> py_max xs = Inr (Max (set xs))"
  by (cases xs) (simp_all add: py_max_def fold_max_Max del: set_simps)

lemma py_min_nonempty: "xs \<noteq> [] \<Longrightarrow> py_min xs = Inr (Min (set xs))"
  by (cases xs) (simp_all add: py_min_def fold_min_Min)

lemma box_entry_nonempty:
  "objects \<noteq> [] \<Longrightarrow> box_entry objects i j = Inr (extremum objects i j)"
  by (simp add: box_entry_def minmax_def extremum_def py_max_nonempty py_min_nonempty)

lemma box_row_nonempty:
  "objects \<noteq> [] \<Longrightarrow>
   box_row objects i = Inr (extremum objects i 0, extremum objects i 1, extremum objects i 2)"
  by (simp add: box_row_def box_entry_nonempty)

lemma traverse_Inr: "(\<And>x. x \<in> set xs \<Longrightarrow> f x = Inr (g x)) \<Longrightarrow> traverse f xs = Inr (map g xs)"
  by (induction xs) simp_all

lemma box_nonempty:
  "objects \<noteq> [] \<Longrightarrow>
   box objects = Inr (map (\<lambda>i. (extremum objects i 0, extremum objects i 1, extremum objects i 2)) [0..<8])"
  unfolding box_def by (rule traverse_Inr) (simp add: box_row_nonempty)

lemma box_empty: "box [] = Inl ValueError"
  by (simp add: box_def box_row_def box_entry_def minmax_def py_max_def py_min_def upt_rec)

lemma max_norm_Max:
  "b \<noteq> [] \<Longrightarrow> max_norm b c = Max ((\<lambda>p. vlength (vsub p c)) ` set b)"
proof -
  assume "b \<noteq> []"
  then obtain q qs where b: "b = q # qs" by (cases b) auto
  have "max_norm b c = Max (set (vlength (vsub q c) # map (\<lambda>p. vlength (vsub p c)) qs))"
    unfolding max_norm_def b by (simp only: list.map list.case fold_max_Max)
  then show ?thesis by (simp add: b)
qed

lemma max_norm_upper: "p \<in> set b \<Longrightarrow> vlength (vsub p c) \<le> max_norm b c"
proof -
  assume p: "p \<in> set b"
  then have "b \<noteq> []" by auto
  then have "max_norm b c = Max ((\<lambda>p. vlength (vsub p c)) ` set b)" by (rule max_norm_Max)
  moreover have "vlength (vsub p c) \<le> Max ((\<lambda>p. vlength (vsub p c)) ` set b)"
    using p by (intro Max_ge) auto
  ultimately show ?thesis by simp
qed

lemma max_norm_attained: "b \<noteq> [] \<Longrightarrow> \<exists>p \<in> set b. max_norm b c = vlength (vsub p c)"
proof -
  assume ne: "b \<noteq> []"
  let ?D = "(\<lambda>p. vlength (vsub p c)) ` set b"
  have "max_norm b c = Max ?D" using ne by (rule max_norm_Max)
  moreover have "Max ?D \<in> ?D" by (rule Max_in) (simp_all add: ne)
  ultimately show ?thesis by auto
qed

text \<open>
  For a single object the composite box is the object's own box in world space, and
  the sphere reaches its eight corners.
\<close>

lemma extremum_single: "extremum [x] i j = vget (world_corner x i) j"
  by (simp add: extremum_def)

lemma BoundingSphere_single_object:
  "\<exists>s. BoundingSphere [x] None = Inr s \<and>
       (\<forall>i < 8. vlength (vsub (world_corner x i) (centre s)) \<le> radius s)"
proof -
  let ?b = "map (\<lambda>i. (extremum [x] i 0, extremum [x] i 1, extremum [x] i 2)) [0..<8]"
  have b: "box [x] = Inr ?b" by (rule box_nonempty) simp
  have row: "(extremum [x] i 0, extremum [x] i 1, extremum [x] i 2) = world_corner x i" for i
    by (cases "world_corner x i") (simp add: extremum_single)
  let ?s = "\<lparr>centre = box_mean ?b, radius = max_norm ?b (box_mean ?b)\<rparr>"
  have s: "BoundingSphere [x] None = Inr ?s"
    by (simp add: BoundingSphere_def b Let_def del: upt_Suc)
  have "vlength (vsub (world_corner x i) (centre ?s)) \<le> radius ?s" if "i < 8" for i
  proof -
    have "world_corner x i \<in> set ?b"
      using that row [of i] by (auto simp del: upt_Suc intro!: image_eqI [where x = i])
    from max_norm_upper [OF this] show ?thesis by simp
  qed
  with s show ?thesis by blast
qed

text \<open>
  C10: \<open>BoundingSphere\<close> takes an optional centre. For every non-empty list of objects
  and every supplied centre the construction succeeds, the centre of the sphere is the
  supplied point (the mean of the composite box is not used), and the radius is the
  largest Euclidean distance from that point to the eight composite corners: it bounds
  the distance to every corner and is the distance to one of them.
\<close>

theorem BoundingSphere_explicit_centre:
  assumes "objects \<noteq> []"
  shows "\<exists>b. box objects = Inr b \<and> length b = 8 \<and>
           BoundingSphere objects (Some c) = Inr \<lparr>centre = c, radius = max_norm b c\<rparr> \<and>
           (\<forall>i < 8. \<forall>j < 3. vget (b ! i) j = extremum objects i j) \<and>
           (\<forall>p \<in> set b. vlength (vsub p c) \<le> max_norm b c) \<and>
           (\<exists>p \<in> set b. max_norm b c = vlength (vsub p c))"
proof -
  let ?b = "map (\<lambda>i. (extremum objects i 0, extremum objects i 1, extremum objects i 2)) [0..<8]"
  have b: "box objects = Inr ?b" using assms by (rule box_nonempty)
  have len: "length ?b = 8" by simp
  have sph: "BoundingSphere objects (Some c) = Inr \<lparr>centre = c, radius = max_norm ?b c\<rparr>"
    by (simp add: BoundingSphere_def b del: upt_Suc)
  have ent: "\<forall>i < 8. \<forall>j < 3. vget (?b ! i) j = extremum objects i j"
  proof (intro allI impI)
    fix i j :: nat assume "i < 8" "j < 3"
    then have "?b ! i = (extremum objects i 0, extremum objects i 1, extremum objects i 2)"
      by (simp del: upt_Suc)
    moreover have "j = 0 \<or> j = 1 \<or> j = 2" using \<open>j < 3\<close> by arith
    ultimately show "vget (?b ! i) j = extremum objects i j" by auto
  qed
  have up: "\<forall>p \<in> set ?b. vlength (vsub p c) \<le> max_norm ?b c"
    using max_norm_upper by blast
  have "?b \<noteq> []" using len by (metis length_0_conv zero_neq_numeral)
  then have att: "\<exists>p \<in> set ?b. max_norm ?b c = vlength (vsub p c)"
    by (rule max_norm_attained)
  from b len sph ent up att show ?thesis by blast
qed

theorem BoundingSphere_explicit_centre_witness:
  "[cube_small] \<noteq> [] \<and>
   (\<exists>b. box [cube_small] = Inr b \<and> length b = 8 \<and>
      BoundingSphere [cube_small] (Some (2, 2, 2)) =
        Inr \<lparr>centre = (2, 2, 2), radius = max_norm b (2, 2, 2)\<rparr> \<and>
      (\<exists>p \<in> set b. max_norm b (2, 2, 2) = vlength (vsub p (2, 2, 2))))"
  using BoundingSphere_explicit_centre [of "[cube_small]" "(2, 2, 2)"] by blast

text \<open>The sphere of the two example boxes, computed step by step.\<close>

lemma upt8: "[0..<8] = [0, 1, 2, 3, 4, 5, 6, 7]"
  by (simp add: upt_rec)

lemma is_max_table:
  "is_max 0 0 = False" "is_max 0 (Suc 0) = False" "is_max 0 2 = False"
  "is_max (Suc 0) 0 = True" "is_max (Suc 0) (Suc 0) = False" "is_max (Suc 0) 2 = False"
  "is_max 2 0 = True" "is_max 2 (Suc 0) = True" "is_max 2 2 = False"
  "is_max 3 0 = False" "is_max 3 (Suc 0) = True" "is_max 3 2 = False"
  "is_max 4 0 = False" "is_max 4 (Suc 0) = False" "is_max 4 2 = True"
  "is_max 5 0 = True" "is_max 5 (Suc 0) = False" "is_max 5 2 = True"
  "is_max 6 0 = True" "is_max 6 (Suc 0) = True" "is_max 6 2 = True"
  "is_max 7 0 = False" "is_max 7 (Suc 0) = True" "is_max 7 2 = True"
  by (simp_all add: is_max_def)

lemma corners_small:
  "world_corner cube_small 0 = (0, 0, 0)" "world_corner cube_small (Suc 0) = (0, 0, 4)"
  "world_corner cube_small 2 = (0, 4, 4)" "world_corner cube_small 3 = (0, 4, 0)"
  "world_corner cube_small 4 = (4, 0, 0)" "world_corner cube_small 5 = (4, 0, 4)"
  "world_corner cube_small 6 = (4, 4, 4)" "world_corner cube_small 7 = (4, 4, 0)"
  by (simp_all add: world_corner_def cube_small_def identity_matrix_def aabb_corners_def)

lemma corners_large:
  "world_corner slab_large 0 = (-4, 0, 0)" "world_corner slab_large (Suc 0) = (-4, 0, 8)"
  "world_corner slab_large 2 = (-4, 4, 8)" "world_corner slab_large 3 = (-4, 4, 0)"
  "world_corner slab_large 4 = (4, 0, 0)" "world_corner slab_large 5 = (4, 0, 8)"
  "world_corner slab_large 6 = (4, 4, 8)" "world_corner slab_large 7 = (4, 4, 0)"
  by (simp_all add: world_corner_def slab_large_def identity_matrix_def aabb_corners_def)

lemma rows_two:
  "box_row [cube_small, slab_large] 0 = Inr (-4, 0, 0)"
  "box_row [cube_small, slab_large] (Suc 0) = Inr (0, 0, 4)"
  "box_row [cube_small, slab_large] 2 = Inr (0, 4, 4)"
  "box_row [cube_small, slab_large] 3 = Inr (-4, 4, 0)"
  "box_row [cube_small, slab_large] 4 = Inr (4, 0, 0)"
  "box_row [cube_small, slab_large] 5 = Inr (4, 0, 8)"
  "box_row [cube_small, slab_large] 6 = Inr (4, 4, 8)"
  "box_row [cube_small, slab_large] 7 = Inr (4, 4, 0)"
  by (simp_all add: box_row_def box_entry_def minmax_def is_max_table py_min_def py_max_def
      corners_small corners_large)

lemma box_two:
  "box [cube_small, slab_large] =
     Inr [(-4, 0, 0), (0, 0, 4), (0, 4, 4), (-4, 4, 0), (4, 0, 0), (4, 0, 8), (4, 4, 8), (4, 4, 0)]"
  by (simp add: box_def upt8 rows_two)

lemma mean_two:
  "box_mean [(-4, 0, 0), (0, 0, 4), (0, 4, 4), (-4, 4, 0), (4, 0, 0), (4, 0, 8), (4, 4, 8), (4, 4, 0)]
     = (1, 2, 3)"
  by (simp add: box_mean_def)

lemma max_norm_two:
  "max_norm [(-4, 0, 0), (0, 0, 4), (0, 4, 4), (-4, 4, 0), (4, 0, 0), (4, 0, 8), (4, 4, 8), (4, 4, 0)]
     (1, 2, 3) = sqrt 38"
  by (simp add: max_norm_def vlength_def)

lemma sphere_two: "BoundingSphere [cube_small, slab_large] None = Inr \<lparr>centre = (1, 2, 3), radius = sqrt 38\<rparr>"
  by (simp add: BoundingSphere_def box_two mean_two max_norm_two)

text \<open>
  C2: the radius is claimed to reach every corner of every input box. For the two
  example boxes, both axis-aligned with the identity as world matrix and corners in the
  host's order, the sphere has centre (1, 2, 3) and radius \<open>sqrt 38\<close>, while corner 2 of
  the larger box, (-4, 4, 8), lies at distance \<open>sqrt 54\<close> from the centre.
\<close>

theorem BoundingSphere_misses_corner:
  "BoundingSphere [cube_small, slab_large] None = Inr \<lparr>centre = (1, 2, 3), radius = sqrt 38\<rparr> \<and>
   world_corner slab_large 2 = (- 4, 4, 8) \<and>
   vlength (vsub (world_corner slab_large 2) (1, 2, 3)) = sqrt 54 \<and>
   sqrt 38 < sqrt 54"
  by (simp add: sphere_two corners_large vlength_def)

section \<open>The landscape tree and its nearest point\<close>

lemma fold_nearer_in: "fold (nearer q) ps p \<in> set (p # ps)"
  by (induction ps arbitrary: p) (auto simp: nearer_def)

lemma fold_nearer_le_acc:
  "norm2 (vsub (fst (fold (nearer q) ps p)) q) \<le> norm2 (vsub (fst p) q)"
proof (induction ps arbitrary: p)
  case Nil
  show ?case by simp
next
  case (Cons a ps)
  have "norm2 (vsub (fst (nearer q a p)) q) \<le> norm2 (vsub (fst p) q)"
    by (simp add: nearer_def)
  with Cons [of "nearer q a p"] show ?case by simp
qed

lemma fold_nearer_le:
  "x \<in> set (p # ps) \<Longrightarrow>
   norm2 (vsub (fst (fold (nearer q) ps p)) q) \<le> norm2 (vsub (fst x) q)"
proof (induction ps arbitrary: p)
  case Nil
  then show ?case by simp
next
  case (Cons a ps)
  show ?case
  proof (cases "x \<in> set (nearer q a p # ps)")
    case True
    from Cons.IH [OF True] show ?thesis by simp
  next
    case False
    have le1: "norm2 (vsub (fst (fold (nearer q) ps (nearer q a p))) q)
        \<le> norm2 (vsub (fst (nearer q a p)) q)"
      by (rule fold_nearer_le_acc)
    have "norm2 (vsub (fst (nearer q a p)) q) \<le> norm2 (vsub (fst x) q)"
      using False Cons.prems by (auto simp: nearer_def split: if_splits)
    with le1 show ?thesis by simp
  qed
qed

lemma kdtree_find_nearest:
  assumes "tree \<noteq> []"
  shows "\<exists>c i. kdtree_find tree q = Some (c, i, vlength (vsub c q)) \<and> (c, i) \<in> set tree \<and>
           (\<forall>x \<in> set tree. vlength (vsub c q) \<le> vlength (vsub (fst x) q))"
proof -
  from assms obtain p ps where t: "tree = p # ps" by (cases tree) auto
  obtain c i where f: "fold (nearer q) ps p = (c, i)" by (cases "fold (nearer q) ps p")
  have "kdtree_find tree q = Some (c, i, vlength (vsub c q))"
    by (simp add: kdtree_find_def t f)
  moreover have "(c, i) \<in> set tree"
    using fold_nearer_in [of q ps p] by (simp add: t f)
  moreover have "vlength (vsub c q) \<le> vlength (vsub (fst x) q)" if "x \<in> set tree" for x
    using fold_nearer_le [of x p ps q] that by (simp add: t f vlength_def)
  ultimately show ?thesis by blast
qed

lemma landscape_tree_points:
  "landscape_tree l = Inr t \<Longrightarrow>
   map fst t = map (\<lambda>v. mat_mul_vec (matrix_world l) (co v)) (vertices l) \<and>
   map snd t = [0..<length (vertices l)]"
  by (auto simp: landscape_tree_def enumerate_eq_zip map_snd_zip_take  split_beta
      intro!: nth_equalityI)

text \<open>
  C8, the part that fails: building from zero points is claimed to be an error. A
  landscape without vertices gives a tree without points, with no error; a query on it
  finds no point.
\<close>

theorem landscape_tree_empty_builds:
  "landscape_tree empty_landscape = Inr [] \<and> kdtree_find [] (0, 0, 0) = None"
  by (simp add: landscape_tree_def empty_landscape_def kdtree_find_def)

text \<open>
  C8, as amended. For every landscape, \<open>landscape_tree\<close> returns a tree that holds the
  world positions of the vertices under their indices. When there is at least one
  vertex, a query returns a point of the tree with its distance to the query, and no
  point of the tree is nearer; with exactly one vertex that vertex is returned for every
  query. With no vertex the tree is empty and a query returns no point: no error is
  raised when the tree is built.
\<close>

theorem kdtree_find_nearest_or_none:
  "(\<exists>t. landscape_tree l = Inr t \<and>
     map fst t = map (\<lambda>v. mat_mul_vec (matrix_world l) (co v)) (vertices l) \<and>
     map snd t = [0..<length (vertices l)] \<and>
     (vertices l = [] \<longrightarrow> t = [] \<and> kdtree_find t q = None) \<and>
     (vertices l \<noteq> [] \<longrightarrow>
        (\<exists>c i. kdtree_find t q = Some (c, i, vlength (vsub c q)) \<and> (c, i) \<in> set t \<and>
           (\<forall>x \<in> set t. vlength (vsub c q) \<le> vlength (vsub (fst x) q)))) \<and>
     (\<forall>v. vertices l = [v] \<longrightarrow>
        kdtree_find t q =
          Some (mat_mul_vec (matrix_world l) (co v), 0,
                vlength (vsub (mat_mul_vec (matrix_world l) (co v)) q))))"
proof -
  obtain t where t: "landscape_tree l = Inr t" by (simp add: landscape_tree_def)
  note pts = landscape_tree_points [OF t]
  have e: "vertices l = [] \<longrightarrow> t = [] \<and> kdtree_find t q = None"
    using t by (auto simp: landscape_tree_def kdtree_find_def)
  have n: "vertices l \<noteq> [] \<longrightarrow>
        (\<exists>c i. kdtree_find t q = Some (c, i, vlength (vsub c q)) \<and> (c, i) \<in> set t \<and>
           (\<forall>x \<in> set t. vlength (vsub c q) \<le> vlength (vsub (fst x) q)))"
  proof
    assume "vertices l \<noteq> []"
    then have "t \<noteq> []" using pts by auto
    then show "\<exists>c i. kdtree_find t q = Some (c, i, vlength (vsub c q)) \<and> (c, i) \<in> set t \<and>
           (\<forall>x \<in> set t. vlength (vsub c q) \<le> vlength (vsub (fst x) q))"
      by (rule kdtree_find_nearest)
  qed
  have s: "\<forall>v. vertices l = [v] \<longrightarrow>
        kdtree_find t q =
          Some (mat_mul_vec (matrix_world l) (co v), 0,
                vlength (vsub (mat_mul_vec (matrix_world l) (co v)) q))"
    using t by (auto simp: landscape_tree_def kdtree_find_def)
  from t pts e n s show ?thesis by blast
qed

theorem kdtree_find_nearest_or_none_witness:
  "vertices empty_landscape = [] \<and> landscape_tree empty_landscape = Inr [] \<and>
   vertices peak = [\<lparr>co = (0, 0, 4), select = False\<rparr>] \<and> vertices peak \<noteq> [] \<and>
   (\<exists>t. landscape_tree peak = Inr t \<and>
      kdtree_find t (0, 0, 3) =
        Some (mat_mul_vec (matrix_world peak) (0, 0, 4), 0,
              vlength (vsub (mat_mul_vec (matrix_world peak) (0, 0, 4)) (0, 0, 3))))"
proof -
  have e: "vertices empty_landscape = []" by (simp add: empty_landscape_def)
  have p: "vertices peak = [\<lparr>co = (0, 0, 4), select = False\<rparr>]" by (simp add: peak_def)
  from kdtree_find_nearest_or_none [of empty_landscape "(0, 0, 0)"] e
  have "landscape_tree empty_landscape = Inr []" by auto
  moreover from kdtree_find_nearest_or_none [of peak "(0, 0, 3)"] p
  have "\<exists>t. landscape_tree peak = Inr t \<and>
      kdtree_find t (0, 0, 3) =
        Some (mat_mul_vec (matrix_world peak) (0, 0, 4), 0,
              vlength (vsub (mat_mul_vec (matrix_world peak) (0, 0, 4)) (0, 0, 3)))"
    by auto
  ultimately show ?thesis using e p by simp
qed

section \<open>random\_camera: the rejection loop\<close>

text \<open>One unfolding of the loop, by the outcome of the pass.\<close>

lemma camera_loop_accept:
  "attempt conf sph tree m src n = Inr (Some r) \<Longrightarrow>
   camera_loop conf sph tree m src n = Some (Inr (r, n + 3))"
  by (subst camera_loop.simps) simp

lemma camera_loop_error:
  "attempt conf sph tree m src n = Inl e \<Longrightarrow> camera_loop conf sph tree m src n = Some (Inl e)"
  by (subst camera_loop.simps) simp

lemma camera_loop_reject:
  "attempt conf sph tree m src n = Inr None \<Longrightarrow>
   camera_loop conf sph tree m src n = camera_loop conf sph tree m src (n + 3)"
  by (subst camera_loop.simps) simp

lemma camera_loop_Some_imp:
  assumes "camera_loop conf sph tree m src n = Some y"
  shows "\<exists>k. attempt conf sph tree m src (n + 3 * k) \<noteq> Inr None"
proof (rule camera_loop.raw_induct
    [where P = "\<lambda>conf sph tree m src n y. \<exists>k. attempt conf sph tree m src (n + 3 * k) \<noteq> Inr None",
     OF _ assms])
  fix loop :: "opts \<Rightarrow> sphere \<Rightarrow> kdtree \<Rightarrow> real \<Rightarrow> rng \<Rightarrow> nat
      \<Rightarrow> (error + (vec3 \<times> real \<times> real) \<times> nat) option"
  fix conf sph tree m src n y
  assume IH: "\<And>conf sph tree m src n y. loop conf sph tree m src n = Some y \<Longrightarrow>
      \<exists>k. attempt conf sph tree m src (n + 3 * k) \<noteq> Inr None"
  assume step: "(case attempt conf sph tree m src n of
      Inl e \<Rightarrow> Some (Inl e)
    | Inr None \<Rightarrow> loop conf sph tree m src (n + 3)
    | Inr (Some r) \<Rightarrow> Some (Inr (r, n + 3))) = Some y"
  show "\<exists>k. attempt conf sph tree m src (n + 3 * k) \<noteq> Inr None"
  proof (cases "attempt conf sph tree m src n = Inr None")
    case True
    with step have "loop conf sph tree m src (n + 3) = Some y" by simp
    from IH [OF this] obtain k where "attempt conf sph tree m src (n + 3 + 3 * k) \<noteq> Inr None"
      by blast
    then have "attempt conf sph tree m src (n + 3 * Suc k) \<noteq> Inr None"
      by (simp add: add.assoc)
    then show ?thesis by blast
  next
    case False
    then have "attempt conf sph tree m src (n + 3 * 0) \<noteq> Inr None" by simp
    then show ?thesis by blast
  qed
qed

lemma camera_loop_imp_Some:
  "attempt conf sph tree m src (n + 3 * k) \<noteq> Inr None \<Longrightarrow>
   camera_loop conf sph tree m src n \<noteq> None"
proof (induction k arbitrary: n)
  case 0
  then show ?case
    by (subst camera_loop.simps) (auto split: sum.splits option.splits)
next
  case (Suc k)
  show ?case
  proof (cases "attempt conf sph tree m src n = Inr None")
    case True
    from Suc.prems have "attempt conf sph tree m src (n + 3 + 3 * k) \<noteq> Inr None"
      by (simp add: add.assoc)
    from Suc.IH [OF this] show ?thesis by (simp add: camera_loop_reject [OF True])
  next
    case False
    then show ?thesis
      by (subst camera_loop.simps) (auto split: sum.splits option.splits)
  qed
qed

lemma camera_loop_returns_iff:
  "camera_loop conf sph tree m src n \<noteq> None \<longleftrightarrow>
   (\<exists>k. attempt conf sph tree m src (n + 3 * k) \<noteq> Inr None)"
  using camera_loop_Some_imp camera_loop_imp_Some by blast

text \<open>
  What an accepted pass says: the height of the location exceeds the distance from the
  location to the nearest point of the tree.
\<close>

lemma attempt_accepts:
  assumes "attempt conf sph tree m src n = Inr (Some (loc, theta, phi))"
  shows "\<exists>c i. kdtree_find tree loc = Some (c, i, vlength (vsub c loc)) \<and>
           vlength (vsub c loc) < vget loc 2"
proof -
  have shape: "\<exists>c i. r = (c, i, vlength (vsub c q))" if "kdtree_find tree q = Some r" for q r
    using that by (auto simp: kdtree_find_def split: list.splits prod.splits)
  from assms obtain r where r: "kdtree_find tree loc = Some r" and gt: "snd (snd r) < vget loc 2"
    by (auto simp: attempt_def Let_def split: sum.splits option.splits if_splits)
  from shape [OF r] obtain c i where "r = (c, i, vlength (vsub c loc))" by blast
  with r gt show ?thesis by auto
qed

text \<open>The first example: a single terrain vertex four units above the centre.\<close>

lemma tree_peak: "landscape_tree peak = Inr [((0, 0, 4), 0)]"
  by (simp add: landscape_tree_def peak_def identity_matrix_def enumerate_eq_zip)

lemma find_peak: "kdtree_find [((0, 0, 4), 0)] (0, 0, 3) = Some ((0, 0, 4), 0, 1)"
  by (simp add: kdtree_find_def vlength_def)

lemma attempt_above:
  "attempt conf_above unit_sphere [((0, 0, 4), 0)] 1 zero_source n = Inr (Some ((0, 0, 3), 0, 0))"
  by (simp add: attempt_def conf_above_def unit_sphere_def normal_def uniform_def candidate_def
      find_peak zero_source_def)

lemma conf_above_fields:
  "camera_lens conf_above = (16, 0)" "camera_noise conf_above = Scalar 0"
  by (simp_all add: conf_above_def)

lemma min_distance_unit: "min_distance unit_sphere (right_angle fl) = 1"
  by (simp add: min_distance_def right_angle_def unit_sphere_def tan_45)

lemma random_camera_above:
  "random_camera conf_above unit_sphere [((0, 0, 4), 0)] right_angle zero_source =
     Some (Inr \<lparr>focal_length = 16, location = (0, 0, 3), rotation = (0, 0, pi)\<rparr>)"
proof -
  have l: "camera_loop conf_above unit_sphere [((0, 0, 4), 0)] 1 zero_source (Suc 0) =
      Some (Inr (((0, 0, 3), 0, 0), 4))"
    using camera_loop_accept [OF attempt_above [of 1]] by simp
  show ?thesis
    unfolding random_camera_def
    by (simp add: normal_def conf_above_fields min_distance_unit l)
qed

text \<open>
  C1: a candidate is claimed to be accepted only if its height exceeds the height of
  the nearest terrain point. With the terrain vertex at (0, 0, 4), the camera three
  units above the centre and no variance, \<open>random_camera\<close> returns the location
  (0, 0, 3): the nearest point, (0, 0, 4), is at distance 1, and the source compares the
  height 3 with that distance. The location returned is below the nearest terrain point.
\<close>

theorem random_camera_below_nearest_point:
  "landscape_tree peak = Inr [((0, 0, 4), 0)] \<and>
   random_camera conf_above unit_sphere [((0, 0, 4), 0)] right_angle zero_source =
     Some (Inr \<lparr>focal_length = 16, location = (0, 0, 3), rotation = (0, 0, pi)\<rparr>) \<and>
   kdtree_find [((0, 0, 4), 0)] (0, 0, 3) = Some ((0, 0, 4), 0, 1) \<and>
   vget (0, 0, 3) 2 < vget (0, 0, 4) 2"
  by (simp add: tree_peak random_camera_above find_peak)

text \<open>\<open>random_camera\<close> returns exactly when its loop does, unless the first draw raises.\<close>

lemma random_camera_None_iff:
  "random_camera conf sph tree angle_y src = None \<longleftrightarrow>
     \<not> snd (camera_lens conf) < 0 \<and>
     camera_loop conf sph tree
       (min_distance sph (angle_y (fst (camera_lens conf) * exp (snd (camera_lens conf) * src 0))))
       src 1 = None"
  by (auto simp: random_camera_def normal_def Let_def split: option.splits sum.splits)

text \<open>The second example: every pass is rejected, whatever the position in the source.\<close>

lemma tree_ground: "landscape_tree ground_point = Inr [((0, 0, 0), 0)]"
  by (simp add: landscape_tree_def ground_point_def identity_matrix_def enumerate_eq_zip)

lemma attempt_below:
  "attempt conf_below unit_sphere [((0, 0, 0), 0)] 1 zero_source n = Inr None"
  by (simp add: attempt_def conf_below_def unit_sphere_def normal_def uniform_def candidate_def
      kdtree_find_def vlength_def zero_source_def)

text \<open>
  C5, the part that fails: camera sampling is claimed to end for every configuration.
  With the polar angle fixed at \<open>pi\<close>, below the horizon, and the one terrain vertex at
  the centre of the sphere, every candidate is (0, 0, -1), every pass rejects it, and
  \<open>random_camera\<close> never returns.
\<close>

theorem random_camera_never_returns:
  "landscape_tree ground_point = Inr [((0, 0, 0), 0)] \<and>
   random_camera conf_below unit_sphere [((0, 0, 0), 0)] right_angle zero_source = None"
proof -
  have "camera_lens conf_below = (16, 0)" by (simp add: conf_below_def)
  moreover have "camera_loop conf_below unit_sphere [((0, 0, 0), 0)] 1 zero_source 1 = None"
    using camera_loop_returns_iff [of conf_below unit_sphere "[((0, 0, 0), 0)]" 1 zero_source 1]
    by (simp add: attempt_below)
  ultimately show ?thesis
    by (simp add: random_camera_None_iff min_distance_unit tree_ground)
qed

text \<open>
  C5, as amended. Where the tangent of half the camera angle is not 0, camera sampling
  returns, with a pose or with an exception, exactly when the scale of the first draw
  is negative or some pass of the loop does not reject its candidate; when every pass
  rejects, it runs forever. The source has no bound on the number of passes and no
  timeout error.
\<close>

theorem random_camera_returns_iff:
  assumes "tan (angle_y (fst (camera_lens conf) * exp (snd (camera_lens conf) * src 0)) / 2) \<noteq> 0"
  shows "random_camera conf sph tree angle_y src \<noteq> None \<longleftrightarrow>
     snd (camera_lens conf) < 0 \<or>
     (\<exists>k. attempt conf sph tree
            (min_distance sph (angle_y (fst (camera_lens conf) * exp (snd (camera_lens conf) * src 0))))
            src (1 + 3 * k) \<noteq> Inr None)"
  using camera_loop_returns_iff
    [of conf sph tree
      "min_distance sph (angle_y (fst (camera_lens conf) * exp (snd (camera_lens conf) * src 0)))"
      src 1]
  by (auto simp: random_camera_None_iff)

theorem random_camera_returns_iff_witness:
  "tan (right_angle (fst (camera_lens conf_above) * exp (snd (camera_lens conf_above) * zero_source 0)) / 2) \<noteq> 0 \<and>
   attempt conf_above unit_sphere [((0, 0, 4), 0)] 1 zero_source (1 + 3 * 0) \<noteq> Inr None \<and>
   random_camera conf_above unit_sphere [((0, 0, 4), 0)] right_angle zero_source \<noteq> None"
proof -
  have t: "tan (right_angle (fst (camera_lens conf_above) *
      exp (snd (camera_lens conf_above) * zero_source 0)) / 2) \<noteq> 0"
    by (simp add: right_angle_def tan_45)
  have a: "attempt conf_above unit_sphere [((0, 0, 4), 0)]
      (min_distance unit_sphere (right_angle (fst (camera_lens conf_above) *
         exp (snd (camera_lens conf_above) * zero_source 0)))) zero_source (1 + 3 * 0) \<noteq> Inr None"
    by (simp only: min_distance_unit attempt_above) simp
  have "random_camera conf_above unit_sphere [((0, 0, 4), 0)] right_angle zero_source \<noteq> None"
    using a
      random_camera_returns_iff
        [where angle_y = right_angle and conf = conf_above and src = zero_source
           and sph = unit_sphere and tree = "[((0, 0, 4), 0)]", OF t]
    by blast
  moreover have "attempt conf_above unit_sphere [((0, 0, 4), 0)] 1 zero_source (1 + 3 * 0) \<noteq> Inr None"
    by (simp only: attempt_above) simp
  ultimately show ?thesis using t by blast
qed

section \<open>write\_groups\<close>

text \<open>
  The two outcomes of a call on a file that holds a document.
\<close>

text \<open>Otherwise the document is written back with the group set under the name.\<close>

lemma write_groups_writes:
  assumes "fs filename = Some (Document data)" and "data name = None \<or> overwrite"
  shows "write_groups g filename name overwrite fs =
           (fs(filename \<mapsto> Document (data(name \<mapsto> g))), Inr ())"
  using assms by (auto simp: write_groups_def json_load_def Let_def)

text \<open>The name exists and overwriting is not asked for.\<close>

lemma write_groups_conflict:
  assumes "fs filename = Some (Document data)" and "data name \<noteq> None" and "\<not> overwrite"
  shows "write_groups g filename name overwrite fs = (fs(filename \<mapsto> Empty), Inl ValueError)"
  using assms by (auto simp: write_groups_def json_load_def Let_def)

text \<open>
  C3: on a name that exists, without overwrite, \<open>write_groups\<close> is claimed to fail and
  leave the document unchanged. For the example document, which holds the group set
  \<open>bridge\<close>, the call raises \<open>ValueError\<close>, and the file that held the document is
  empty afterwards: the group set it held is lost.
\<close>

theorem write_groups_conflict_truncates:
  "groups_file ''groups.json'' = Some (Document [''bridge'' \<mapsto> Some bridge_groups]) \<and>
   write_groups (Some bridge_groups) ''groups.json'' ''bridge'' False groups_file =
     (groups_file(''groups.json'' \<mapsto> Empty), Inl ValueError) \<and>
   fst (write_groups (Some bridge_groups) ''groups.json'' ''bridge'' False groups_file) ''groups.json''
     = Some Empty"
  by (simp add: write_groups_def json_load_def groups_file_def)

section \<open>scale: resizes and translations\<close>

lemma translate_group_log:
  "translate_group h grp t tr = (tr', Inr u) \<Longrightarrow> tr' = tr @ [Translate grp t]"
  by (auto simp: translate_group_def split: if_splits)

lemma translate_by_base_log:
  assumes "translate_by_base h g base (t0, t1) tr = (tr', Inr u)"
  shows "\<exists>ts. spec_translations g base t0 t1 = Some ts \<and> tr' = tr @ ts"
  using assms
  by (auto simp: translate_by_base_def spec_translations_def then_do_def lookup_def raise_def
      translate_group_def split: if_splits option.splits prod.splits sum.splits)

lemma resize_scale_group_log:
  "resize_scale_group h names reference start_ref end_ref ax tr = (tr', r) \<Longrightarrow>
   \<exists>rs. tr' = tr @ rs \<and> list_all is_resize rs"
proof (induction names arbitrary: tr)
  case Nil
  then show ?case by simp
next
  case (Cons name names)
  show ?case
  proof (cases "name = reference")
    case True
    with Cons show ?thesis by simp
  next
    case False
    show ?thesis
    proof (cases "h tr name")
      case None
      with False Cons.prems show ?thesis by simp
    next
      case (Some start_box)
      let ?v = "vdiv (vsub (vsub (vadd (vsub (snd start_box) (snd start_ref)) (snd end_ref))
                   (vadd (vsub (fst start_box) (fst start_ref)) (fst end_ref))) (0,0,0))
                   (vsub (snd start_box) (fst start_box))"
      from False Some Cons.prems obtain v where
        "resize_scale_group h names reference start_ref end_ref ax
           (tr @ [Resize name (resize_value ax v)]) = (tr', r)"
        by (auto simp: Let_def then_do_def scale_object_def)
      from Cons.IH [OF this] obtain rs where
        "tr' = (tr @ [Resize name (resize_value ax v)]) @ rs" "list_all is_resize rs" by blast
      then have "tr' = tr @ (Resize name (resize_value ax v) # rs) \<and>
          list_all is_resize (Resize name (resize_value ax v) # rs)"
        by (simp add: is_resize_def)
      then show ?thesis by blast
    qed
  qed
qed

text \<open>The example calls, evaluated.\<close>

lemma bridge_groups_simps:
  "bridge_groups ''scale'' = Some [''deck'']" "bridge_groups ''min'' = Some [''pier_a'']"
  "bridge_groups ''max'' = Some [''pier_b'']"
  by (simp_all add: bridge_groups_def)

lemma scale_bridge:
  "scale (box_host bridge_scene) (Some bridge_groups) 2 0 ''deck'' ''scale'' [] =
     ([Resize ''deck'' (Some 2, Some 1, Some 1), Translate [''pier_a''] (- 5, 0, 0),
       Translate [''pier_b''] (5, 0, 0)], Inr ())"
  by (simp add: scale_def axis_mask_def box_host_def bridge_scene_def then_do_def
      scale_object_def resize_factor_def lookup_def bridge_groups_simps translate_by_base_def
      translate_group_def)

lemma plate_groups_simps:
  "plate_groups ''scale'' = Some [''deck'', ''plate'']" "plate_groups ''min'' = Some [''pier_a'']"
  "plate_groups ''max'' = Some [''pier_b'']"
  by (simp_all add: plate_groups_def)

text \<open>
  C4, the part that fails: after a call with a valid base and a factor other than 1,
  exactly one group is claimed to have no net translation. The deck of the second scene
  has no height; scaled by 2 along axis 2 it keeps its box, both rows of \<open>translate\<close> are
  zero, and with base \<open>scale\<close> the \<open>min\<close> and the \<open>max\<close> group are translated by the zero
  vector: no group has moved.
\<close>

theorem scale_flat_reference_moves_no_group:
  "scale (box_host flat_scene) (Some bridge_groups) 2 2 ''deck'' ''scale'' [] =
     ([Resize ''deck'' (Some 1, Some 1, Some 2), Translate [''pier_a''] (0, 0, 0),
       Translate [''pier_b''] (0, 0, 0)], Inr ())"
  by (simp add: scale_def axis_mask_def box_host_def flat_scene_def then_do_def
      scale_object_def resize_factor_def lookup_def bridge_groups_simps translate_by_base_def
      translate_group_def)

text \<open>
  C4, as amended. A call of \<open>scale\<close> that returns has a valid base and has issued, after
  the operations issued before it, resizes only and then exactly the two translations
  of the spec for that base, where \<open>translate\<close> is the change of the reference's lower
  and upper corner under its resize, restricted to the axis. No translation is issued
  for the base group. Nothing makes the two translations differ from zero.
\<close>

theorem scale_translations_follow_base:
  assumes "scale h (Some g) value axis_index reference base tr = (tr', Inr ())"
  shows "\<exists>ax start_ref end_ref rs ts.
           (base = ''min'' \<or> base = ''scale'' \<or> base = ''max'') \<and>
           axis_mask axis_index = Inr ax \<and>
           h tr reference = Some start_ref \<and>
           h (tr @ [Resize reference (resize_value ax (Some value, Some value, Some value))])
             reference = Some end_ref \<and>
           list_all is_resize rs \<and>
           spec_translations g base
             (vmask (vsub (fst end_ref) (fst start_ref)) ax)
             (vmask (vsub (snd end_ref) (snd start_ref)) ax) = Some ts \<and>
           tr' = tr @ rs @ ts"
proof -
  from assms obtain ax where ax: "axis_mask axis_index = Inr ax"
    by (auto simp: scale_def split: sum.splits)
  from assms ax obtain start_ref where sr: "h tr reference = Some start_ref"
    by (auto simp: scale_def split: option.splits)
  let ?tr1 = "tr @ [Resize reference (resize_value ax (Some value, Some value, Some value))]"
  from assms ax sr obtain end_ref where er: "h ?tr1 reference = Some end_ref"
    by (auto simp: scale_def then_do_def scale_object_def split: option.splits)
  let ?t0 = "vmask (vsub (fst end_ref) (fst start_ref)) ax"
  let ?t1 = "vmask (vsub (snd end_ref) (snd start_ref)) ax"
  from assms ax sr er obtain names tr2 where
    loop: "resize_scale_group h names reference start_ref end_ref ax ?tr1 = (tr2, Inr ())" and
    tb: "translate_by_base h g base (?t0, ?t1) tr2 = (tr', Inr ())"
    by (auto simp: scale_def then_do_def scale_object_def lookup_def
        split: option.splits prod.splits sum.splits)
  from resize_scale_group_log [OF loop] obtain rs where
    rs: "tr2 = ?tr1 @ rs" "list_all is_resize rs" by blast
  from translate_by_base_log [OF tb] obtain ts where
    ts: "spec_translations g base ?t0 ?t1 = Some ts" "tr' = tr2 @ ts" by blast
  let ?rs = "Resize reference (resize_value ax (Some value, Some value, Some value)) # rs"
  have "list_all is_resize ?rs" using rs by (simp add: is_resize_def)
  moreover have "tr' = tr @ ?rs @ ts" using rs ts by simp
  moreover have "base = ''min'' \<or> base = ''scale'' \<or> base = ''max''"
    using ts(1) by (auto simp: spec_translations_def split: if_splits)
  ultimately show ?thesis using ax sr er ts by blast
qed

theorem scale_translations_follow_base_witness:
  "scale (box_host bridge_scene) (Some bridge_groups) 2 0 ''deck'' ''scale'' [] =
     ([Resize ''deck'' (Some 2, Some 1, Some 1), Translate [''pier_a''] (- 5, 0, 0),
       Translate [''pier_b''] (5, 0, 0)], Inr ()) \<and>
   (\<exists>ax start_ref end_ref rs ts.
      (''scale'' = ''min'' \<or> ''scale'' = ''scale'' \<or> ''scale'' = ''max'') \<and>
      axis_mask 0 = Inr ax \<and>
      box_host bridge_scene [] ''deck'' = Some start_ref \<and>
      box_host bridge_scene [Resize ''deck'' (resize_value ax (Some 2, Some 2, Some 2))] ''deck''
        = Some end_ref \<and>
      list_all is_resize rs \<and>
      spec_translations bridge_groups ''scale''
        (vmask (vsub (fst end_ref) (fst start_ref)) ax)
        (vmask (vsub (snd end_ref) (snd start_ref)) ax) = Some ts \<and>
      [Resize ''deck'' (Some 2, Some 1, Some 1), Translate [''pier_a''] (- 5, 0, 0),
       Translate [''pier_b''] (5, 0, 0)] = rs @ ts)"
  using scale_translations_follow_base [OF scale_bridge] scale_bridge by simp

text \<open>
  Factor 1 on a scene without flat boxes, for a host on which a resize by 1 on every
  axis changes no box: whatever the outcome of the call, it has issued only resizes by
  1 and then only translations by the zero vector.
\<close>

lemma resize_value_one: "resize_value ax (Some 1, Some 1, Some 1) = (Some 1, Some 1, Some 1)"
  by (cases ax) (simp add: resize_factor_def)

lemma host_unit_resizes:
  assumes "\<And>tr n name. h (tr @ [Resize n (Some 1, Some 1, Some 1)]) name = h tr name"
      and "list_all unit_resize rs"
  shows "h (tr @ rs) name = h tr name"
  using assms(2)
proof (induction rs rule: rev_induct)
  case Nil
  show ?case by simp
next
  case (snoc x rs)
  then obtain n where "x = Resize n (Some 1, Some 1, Some 1)"
    by (cases x) (auto simp: unit_resize_def)
  with snoc assms(1) [of "tr @ rs" n name] show ?case by simp
qed

lemma vdiv_same: "non_flat (lo, hi) \<Longrightarrow>
  vdiv (vsub (vadd (vsub hi r1) r1) (vadd (vsub lo r0) r0)) (vsub hi lo) = (Some 1, Some 1, Some 1)"
  by (cases lo; cases hi; cases r0; cases r1) (auto simp: non_flat_def fdiv_def)

lemma resize_scale_group_unit:
  assumes unit: "\<And>tr n name. h (tr @ [Resize n (Some 1, Some 1, Some 1)]) name = h tr name"
      and nf: "\<And>name b. h tr0 name = Some b \<Longrightarrow> non_flat b"
  shows "list_all unit_resize rs0 \<Longrightarrow>
         resize_scale_group h names reference ref ref ax (tr0 @ rs0) = (tr', r) \<Longrightarrow>
         \<exists>rs. tr' = tr0 @ rs \<and> list_all unit_resize rs"
proof (induction names arbitrary: rs0)
  case Nil
  then show ?case by auto
next
  case (Cons name names)
  show ?case
  proof (cases "name = reference")
    case True
    with Cons.prems have "resize_scale_group h names reference ref ref ax (tr0 @ rs0) = (tr', r)"
      by simp
    from Cons.IH [OF Cons.prems(1) this] show ?thesis .
  next
    case False
    show ?thesis
    proof (cases "h (tr0 @ rs0) name")
      case None
      with False Cons.prems(2) have "tr' = tr0 @ rs0" by simp
      with Cons.prems(1) show ?thesis by blast
    next
      case (Some b)
      then have b0: "h tr0 name = Some b"
        using host_unit_resizes [of h rs0 tr0 name, OF unit Cons.prems(1)] by simp
      have "non_flat b" using nf [OF b0] .
      then have v: "vdiv (vsub (vadd (vsub (snd b) (snd ref)) (snd ref))
                       (vadd (vsub (fst b) (fst ref)) (fst ref))) (vsub (snd b) (fst b))
           = (Some 1, Some 1, Some 1)"
        using vdiv_same [of "fst b" "snd b" "snd ref" "fst ref"] by simp
      let ?rs1 = "rs0 @ [Resize name (Some 1, Some 1, Some 1)]"
      from False Some Cons.prems(2) have
        "resize_scale_group h names reference ref ref ax (tr0 @ ?rs1) = (tr', r)"
        by (simp add: Let_def then_do_def scale_object_def v resize_value_one)
      moreover have "unit_resize (Resize name (Some 1, Some 1, Some 1))"
        by (simp add: unit_resize_def)
      then have "list_all unit_resize ?rs1"
        using Cons.prems(1) by simp
      ultimately show ?thesis using Cons.IH [of ?rs1] by blast
    qed
  qed
qed

lemma vmask_zero: "vmask (vsub v v) ax = (0, 0, 0)"
  by (cases v; cases ax) simp

lemma translate_by_base_zero:
  "translate_by_base h g base ((0, 0, 0), (0, 0, 0)) tr = (tr', r) \<Longrightarrow>
   \<exists>ts. tr' = tr @ ts \<and> list_all zero_translation ts"
  by (auto simp: translate_by_base_def then_do_def lookup_def raise_def translate_group_def
      vneg_def zero_translation_def split: if_splits option.splits prod.splits sum.splits)

lemma scale_by_one_non_flat:
  assumes unit: "\<And>tr n name. h (tr @ [Resize n (Some 1, Some 1, Some 1)]) name = h tr name"
      and nf: "\<And>name b. h tr name = Some b \<Longrightarrow> non_flat b"
      and run: "scale h (Some g) 1 axis_index reference base tr = (tr', r)"
  shows "\<exists>rs ts. tr' = tr @ rs @ ts \<and> list_all unit_resize rs \<and> list_all zero_translation ts"
proof -
  have trivial: ?thesis if "tr' = tr"
    using that by (intro exI [of _ "[]"]) simp
  let ?u = "Resize reference (Some 1, Some 1, Some 1)"
  have u: "list_all unit_resize [?u]" by (simp add: unit_resize_def)
  have after_ref: ?thesis if "tr' = tr @ [?u]"
    using that u by (intro exI [of _ "[?u]"] exI [of _ "[]"]) simp
  show ?thesis
  proof (cases "axis_mask axis_index")
    case (Inl e)
    with run show ?thesis by (intro trivial) (simp add: scale_def)
  next
    case (Inr ax)
    show ?thesis
    proof (cases "h tr reference")
      case None
      with run Inr show ?thesis by (intro trivial) (simp add: scale_def)
    next
      case (Some ref)
      have ref1: "h (tr @ [?u]) reference = Some ref" using unit Some by simp
      show ?thesis
      proof (cases "g ''scale''")
        case None
        with run Inr Some ref1 show ?thesis
          by (intro after_ref)
            (simp add: scale_def then_do_def scale_object_def resize_value_one lookup_def)
      next
        case names: (Some names)
        obtain tr2 r2 where loop:
          "resize_scale_group h names reference ref ref ax (tr @ [?u]) = (tr2, r2)"
          by (metis surj_pair)
        have "\<exists>rs. tr2 = tr @ rs \<and> list_all unit_resize rs"
        proof (rule resize_scale_group_unit
            [where h = h and ?tr0.0 = tr and ?rs0.0 = "[?u]" and names = names
               and reference = reference and ref = ref and ax = ax and tr' = tr2 and r = r2])
          show "h (t @ [Resize n (Some 1, Some 1, Some 1)]) name = h t name" for t n name
            by (rule unit)
          show "non_flat b" if "h tr name = Some b" for name b
            using that by (rule nf)
          show "list_all unit_resize [?u]" by (rule u)
          show "resize_scale_group h names reference ref ref ax (tr @ [?u]) = (tr2, r2)"
            by (rule loop)
        qed
        then obtain rs where rs: "tr2 = tr @ rs" "list_all unit_resize rs" by blast
        show ?thesis
        proof (cases r2)
          case (Inl e)
          with run Inr Some ref1 names loop have "tr' = tr2"
            by (simp add: scale_def then_do_def scale_object_def resize_value_one lookup_def)
          with rs show ?thesis by (intro exI [of _ rs] exI [of _ "[]"]) simp
        next
          case r2: (Inr x)
          with run Inr Some ref1 names loop have
            "translate_by_base h g base ((0, 0, 0), (0, 0, 0)) tr2 = (tr', r)"
            by (simp add: scale_def then_do_def scale_object_def resize_value_one lookup_def
                vmask_zero)
          from translate_by_base_zero [OF this] obtain ts where
            "tr' = tr2 @ ts" "list_all zero_translation ts" by blast
          with rs show ?thesis by (intro exI [of _ rs] exI [of _ ts]) simp
        qed
      qed
    qed
  qed
qed

text \<open>
  C7: with factor 1 every resize factor is claimed to be 1. In the third scene the
  plate in the \<open>scale\<close> group has no height: its length along axis 2 is 0 before and
  after, the source divides the one by the other, and the resize issued for the plate
  has a non-finite factor (nan) on that axis.
\<close>

theorem scale_by_one_resizes_by_nan:
  "scale (box_host plate_scene) (Some plate_groups) 1 0 ''deck'' ''scale'' [] =
     ([Resize ''deck'' (Some 1, Some 1, Some 1), Resize ''plate'' (Some 1, Some 1, None),
       Translate [''pier_a''] (0, 0, 0), Translate [''pier_b''] (0, 0, 0)], Inr ())"
  by (simp add: scale_def axis_mask_def box_host_def plate_scene_def then_do_def
      scale_object_def resize_factor_def lookup_def plate_groups_simps translate_by_base_def
      translate_group_def fdiv_def)

section \<open>Dissolving vertices\<close>



lemma select_near_flags:
  "select_near p (deselect_all vs) = map (\<lambda>u. u\<lparr>select := vlength (vsub (co u) p) < 0.5\<rparr>) vs"
  by (simp add: select_near_def deselect_all_def)







lemma dissolve_next_none_below:
  "\<forall>v \<in> set rest. \<exists>x. vindex (co v) a = Inr x \<and> \<not> x < l \<Longrightarrow>
   dissolve_next d rest mesh a l = Inr (False, mesh)"
  by (induction rest) auto



lemma limit_dissolve_error:
  "dissolve_next d mesh mesh a l = Inl e \<Longrightarrow> limit_dissolve d mesh a l = Some (Inl e)"
  by (subst limit_dissolve.simps) simp

lemma dissolve_round_again:
  "dissolve_next d mesh mesh a l = Inr (b, mesh') \<Longrightarrow> dissolve_round d a l mesh = mesh'"
  by (simp add: dissolve_round_def)





lemma vlength_less_half: "vlength v < 0.5 \<longleftrightarrow> norm2 v < 0.25"
proof -
  have half: "sqrt (1 / 4) = 1 / 2" by (simp add: real_sqrt_divide)
  have "sqrt (norm2 v) < sqrt (1 / 4) \<longleftrightarrow> norm2 v < 1 / 4" by (rule real_sqrt_less_iff)
  then have "sqrt (norm2 v) < 1 / 2 \<longleftrightarrow> norm2 v < 1 / 4" by (simp only: half)
  then show ?thesis by (simp add: vlength_def)
qed

lemma vlength_half_eval: "vlength v * 2 < 1 \<longleftrightarrow> norm2 v * 4 < 1"
  using vlength_less_half [of v] by simp










text \<open>
  C9: \<open>dissolve_near_selected_vertex\<close> raises, and then \<open>ValueError\<close>, exactly when the
  number of selected vertices is not one. With one selected vertex it returns what
  \<open>dissolve_near\<close> returns at that vertex's position, and that is what the host's dissolve
  leaves of the mesh in which exactly the vertices at distance less than 0.5 from that
  position are selected.
\<close>

theorem dissolve_near_selected_vertex_cardinality:
  "(dissolve_near_selected_vertex d vs = Inl ValueError \<longleftrightarrow> length (filter select vs) \<noteq> 1) \<and>
   (\<forall>e. dissolve_near_selected_vertex d vs = Inl e \<longrightarrow> e = ValueError) \<and>
   (\<forall>v. filter select vs = [v] \<longrightarrow>
      dissolve_near_selected_vertex d vs = Inr (dissolve_near d (co v) vs) \<and>
      dissolve_near d (co v) vs =
        d (map (\<lambda>u. u\<lparr>select := vlength (vsub (co u) (co v)) < 0.5\<rparr>) vs))"
  by (auto simp: dissolve_near_selected_vertex_def Let_def dissolve_near_def select_near_flags)

theorem dissolve_near_selected_vertex_cardinality_witness:
  "filter select one_selected = [\<lparr>co = (0, 0, 0), select = True\<rparr>] \<and>
   dissolve_near_selected_vertex remove_selected one_selected =
     Inr (dissolve_near remove_selected (0, 0, 0) one_selected) \<and>
   dissolve_near remove_selected (0, 0, 0) one_selected = [\<lparr>co = (0, 0, 1), select = False\<rparr>]"
proof -
  have sel: "filter select one_selected = [\<lparr>co = (0, 0, 0), select = True\<rparr>]"
    by (simp add: one_selected_def)
  have res: "remove_selected
      (map (\<lambda>u. u\<lparr>select := vlength (vsub (co u) (0, 0, 0)) < 0.5\<rparr>) one_selected) =
      [\<lparr>co = (0, 0, 1), select = False\<rparr>]"
    by (simp add: one_selected_def remove_selected_def vlength_half_eval)
  from dissolve_near_selected_vertex_cardinality [of remove_selected one_selected] sel res
  show ?thesis by simp
qed

end
